theory Spec2Isabelle
  imports Main
begin

section \<open>The tokenizer of index.js\<close>

text \<open>
  The class \<open>Tokenizer\<close> of \<open>src/index.js\<close> scans its input one character at a time and
  mutates private fields. The model threads those fields through every method as a
  record. The input and the options are set once by the constructor and never written
  again, so they are parameters of every function.

  Characters are the code units of the JavaScript string; the model has the units below
  256 (\<open>char\<close>). Exceptions are values: a method that can throw returns
  \<open>tokenizer_error + state\<close>.
\<close>

subsection \<open>Tokens, options, state\<close>

text \<open>
  A token object is \<open>{type, value}\<close> or \<open>{type: 'block', opener, closer, children}\<close>.
  The README documents a third field \<open>position\<close> of atomic tokens, and \<open>toString\<close>
  reads it; the model has it as an option, \<open>None\<close> where the object has no such field.
  A position is \<open>((start line, start column), (end line, end column))\<close>.
\<close>

type_synonym position = "(nat \<times> nat) \<times> (nat \<times> nat)"

datatype token =
    Tok string string "position option"
  | Block char char "token list"

fun type_of :: "token \<Rightarrow> string" where
  "type_of (Tok ty v p) = ty"
| "type_of (Block opn cls cs) = ''block''"

fun position_of :: "token \<Rightarrow> position option" where
  "position_of (Tok ty v p) = p"
| "position_of (Block opn cls cs) = None"

record options =
  trackPosition :: bool
  preserveWhitespace :: bool
  preserveComments :: bool
  allowRegex :: bool

text \<open>
  The constructor's defaults. The other options (\<open>customOperators\<close>, \<open>hexNumbers\<close>,
  \<open>binaryNumbers\<close>, \<open>octalNumbers\<close>, \<open>templateLiterals\<close>) are stored and never read.
\<close>

definition default_options :: options where
  "default_options =
     \<lparr>trackPosition = True, preserveWhitespace = False,
      preserveComments = True, allowRegex = True\<rparr>"

text \<open>
  An open block. In the source the block object made by \<open>#startBlock\<close> is at once the
  last child of its container, the top of \<open>#tokenStack\<close> and \<open>#currentBlock\<close>, and
  \<open>#addToken\<close> pushes onto \<open>#currentBlock.children\<close>: while a block is open, it alone
  grows. The model keeps every open block once, as an entry of \<open>tokenStack\<close> (innermost
  first), and hangs it into its container when \<open>#finishBlock\<close> pops it.
  \<open>#currentBlock\<close> is the head of \<open>tokenStack\<close>, which is what the source keeps it equal
  to (\<open>#startBlock\<close> and \<open>#finishBlock\<close> are the only writers of both).
\<close>

record block =
  opener :: char
  closer :: char
  children :: "token list"

record state =
  tokens :: "token list"
  tokenBuffer :: string
  tokenStack :: "block list"
  position :: nat
  line :: nat
  column :: nat
  inString :: bool
  stringDelimiter :: "char option"

definition init :: state where
  "init = \<lparr>tokens = [], tokenBuffer = [], tokenStack = [], position = 0,
           line = 1, column = 1, inString = False, stringDelimiter = None\<rparr>"

definition currentBlock :: "state \<Rightarrow> block option" where
  "currentBlock st = (case tokenStack st of [] \<Rightarrow> None | b # bs \<Rightarrow> Some b)"

subsection \<open>Errors\<close>

text \<open>
  The message templates of the \<open>throw\<close> statements, with the values they interpolate.
\<close>

datatype message =
    UnexpectedCharacter char
  | UnclosedBlock char
  | UnclosedString "char option"
  | UnclosedComment
  | UnterminatedRegex
  | UnbalancedClosing char
  | MismatchedBrackets char char
  | InvalidNumber string

record tokenizer_error =
  message :: message
  line_column :: "(nat \<times> nat) option"
  offset :: nat
  context_window :: string
  pointer :: string

definition slice :: "string \<Rightarrow> nat \<Rightarrow> nat \<Rightarrow> string" where
  "slice s a b = take (b - a) (drop a s)"

definition error :: "string \<Rightarrow> options \<Rightarrow> state \<Rightarrow> message \<Rightarrow> tokenizer_error" where
  "error inp opts st msg =
     (let start = position st - 20;
          stop = min (length inp) (position st + 20)
      in \<lparr>message = msg,
          line_column = (if trackPosition opts then Some (line st, column st) else None),
          offset = position st,
          context_window = slice inp start stop,
          pointer = replicate (position st - start) CHR '' '' @ ''^''\<rparr>)"

definition and_then :: "'e + 'a \<Rightarrow> ('a \<Rightarrow> 'e + 'b) \<Rightarrow> 'e + 'b" where
  "and_then r f = (case r of Inl e \<Rightarrow> Inl e | Inr x \<Rightarrow> f x)"

subsection \<open>String helpers of the JavaScript library\<close>

definition startsWith :: "string \<Rightarrow> string \<Rightarrow> bool" where
  "startsWith s pat = (take (length pat) s = pat)"

fun find_from :: "string \<Rightarrow> string \<Rightarrow> nat option" where
  "find_from pat [] = (if pat = [] then Some 0 else None)"
| "find_from pat (c # cs) =
     (if startsWith (c # cs) pat then Some 0 else map_option Suc (find_from pat cs))"

text \<open>\<open>s.indexOf(pat, from)\<close>, with \<open>None\<close> for \<open>-1\<close>.\<close>

definition indexOf :: "string \<Rightarrow> string \<Rightarrow> nat \<Rightarrow> nat option" where
  "indexOf s pat from = map_option (\<lambda>i. from + i) (find_from pat (drop from s))"

text \<open>\<open>s.split(sep)\<close> for a separator of one character.\<close>

fun split_on :: "char \<Rightarrow> string \<Rightarrow> string list" where
  "split_on sep [] = [[]]"
| "split_on sep (c # cs) =
     (if c = sep then [] # split_on sep cs
      else (case split_on sep cs of [] \<Rightarrow> [[c]] | l # ls \<Rightarrow> (c # l) # ls))"

subsection \<open>Character classes\<close>

definition newline :: char where "newline = CHR 0x0A"
definition carriage_return :: char where "carriage_return = CHR 0x0D"
definition backslash :: char where "backslash = CHR 0x5C"
definition double_quote :: char where "double_quote = CHR 0x22"
definition single_quote :: char where "single_quote = CHR 0x27"
definition backtick :: char where "backtick = CHR 0x60"

text \<open>The quote class of the driver: backtick, single quote, double quote.\<close>

definition is_quote :: "char \<Rightarrow> bool" where
  "is_quote c = (c = backtick \<or> c = single_quote \<or> c = double_quote)"

text \<open>\<open>/\s/\<close> on the code units below 256: tab, LF, VT, FF, CR, space, no-break space.\<close>

definition is_space :: "char \<Rightarrow> bool" where
  "is_space c = (c \<in> set [CHR 0x09, CHR 0x0A, CHR 0x0B, CHR 0x0C, CHR 0x0D, CHR 0x20, CHR 0xA0])"

definition is_digit :: "char \<Rightarrow> bool" where
  "is_digit c = (c \<in> set ''0123456789'')"

text \<open>\<open>/[a-zA-Z#._$-]/\<close>.\<close>

definition is_ident :: "char \<Rightarrow> bool" where
  "is_ident c = (c \<in> set ''abcdefghijklmnopqrstuvwxyzABCDEFGHIJKLMNOPQRSTUVWXYZ#._$-'')"

text \<open>\<open>/[gimsuvy]/\<close>.\<close>

definition is_flag :: "char \<Rightarrow> bool" where
  "is_flag c = (c \<in> set ''gimsuvy'')"

text \<open>The three \<open>includes\<close> tests of the driver on a single character.\<close>

definition is_symbol :: "char \<Rightarrow> bool" where
  "is_symbol c = (c \<in> set ''+-*/:;,=<>!&|%^~?'')"

definition is_opener :: "char \<Rightarrow> bool" where
  "is_opener c = (c \<in> set ''[{('')"

definition is_closer :: "char \<Rightarrow> bool" where
  "is_closer c = (c \<in> set '']})'')"

subsection \<open>Emitting tokens\<close>

definition addToken :: "token \<Rightarrow> state \<Rightarrow> state" where
  "addToken token st =
     (case tokenStack st of
        [] \<Rightarrow> st\<lparr>tokens := tokens st @ [token]\<rparr>
      | b # bs \<Rightarrow> st\<lparr>tokenStack := b\<lparr>children := children b @ [token]\<rparr> # bs\<rparr>)"

definition finishToken :: "string \<Rightarrow> state \<Rightarrow> state" where
  "finishToken ty st =
     (if length (tokenBuffer st) > 0
      then (addToken (Tok ty (tokenBuffer st) None) st)\<lparr>tokenBuffer := []\<rparr>
      else st)"

text \<open>
  \<open>/^[0-9.]+$/\<close> on a non-empty buffer, and the number of matches of \<open>/\./g\<close>.
\<close>

definition numeric :: "string \<Rightarrow> bool" where
  "numeric buf = (\<forall>c \<in> set buf. is_digit c \<or> c = CHR ''.'')"

definition dotCount :: "string \<Rightarrow> nat" where
  "dotCount buf = length (filter (\<lambda>c. c = CHR ''.'') buf)"

definition flushBuffer :: "string \<Rightarrow> options \<Rightarrow> state \<Rightarrow> tokenizer_error + state" where
  "flushBuffer inp opts st =
     (if length (tokenBuffer st) > 0 then
        (if numeric (tokenBuffer st) then
           (if dotCount (tokenBuffer st) > 1
            then Inl (error inp opts st (InvalidNumber (tokenBuffer st)))
            else Inr (finishToken ''number'' st))
         else Inr (finishToken ''identifier'' st))
      else Inr st)"

subsection \<open>Strings\<close>

definition handleStringContent :: "string \<Rightarrow> char \<Rightarrow> state \<Rightarrow> state" where
  "handleStringContent inp char st =
     (if char = backslash \<and> position st + 1 < length inp then
        st\<lparr>tokenBuffer := tokenBuffer st @ [char, inp ! (position st + 1)],
           position := position st + 1\<rparr>
      else if Some char = stringDelimiter st then
        (finishToken ''string'' st)\<lparr>inString := False, stringDelimiter := None\<rparr>
      else st\<lparr>tokenBuffer := tokenBuffer st @ [char]\<rparr>)"

definition startString :: "string \<Rightarrow> options \<Rightarrow> char \<Rightarrow> state \<Rightarrow> tokenizer_error + state" where
  "startString inp opts delimiter st =
     and_then (flushBuffer inp opts st)
       (\<lambda>st. Inr (st\<lparr>inString := True, stringDelimiter := Some delimiter\<rparr>))"

subsection \<open>Comments\<close>

definition checkComment :: "string \<Rightarrow> state \<Rightarrow> bool" where
  "checkComment inp st =
     (let remaining = drop (position st) inp
      in startsWith remaining ''//'' \<or> startsWith remaining ''/*'')"

definition handleComment :: "string \<Rightarrow> options \<Rightarrow> state \<Rightarrow> tokenizer_error + state" where
  "handleComment inp opts st0 =
     and_then (flushBuffer inp opts st0) (\<lambda>st.
       let remaining = drop (position st) inp in
       if startsWith remaining ''//'' then
         (let commentEnd = (case indexOf inp [newline] (position st) of
                              None \<Rightarrow> length inp | Some endIndex \<Rightarrow> endIndex);
              comment = slice inp (position st) commentEnd;
              st1 = (if preserveComments opts
                     then addToken (Tok ''comment'' comment None) st else st)
          in Inr (st1\<lparr>position := commentEnd - 1\<rparr>))
       else if startsWith remaining ''/*'' then
         (case indexOf inp ''*/'' (position st + 2) of
            None \<Rightarrow> Inl (error inp opts st UnclosedComment)
          | Some endIndex \<Rightarrow>
              (let comment = slice inp (position st) (endIndex + 2);
                   st1 = (if preserveComments opts
                          then addToken (Tok ''comment'' comment None) st else st);
                   lines = split_on newline comment;
                   st2 = st1\<lparr>line := line st1 + (length lines - 1)\<rparr>;
                   st3 = (if length lines > 1
                          then st2\<lparr>column := length (last lines)\<rparr> else st2)
               in Inr (st3\<lparr>position := endIndex + 1\<rparr>)))
       else Inr st)"

subsection \<open>Regular expressions\<close>

text \<open>
  The last token of the current container that is neither whitespace nor a comment.
\<close>

definition getLastMeaningfulToken :: "state \<Rightarrow> token option" where
  "getLastMeaningfulToken st =
     (let toks = (case currentBlock st of Some b \<Rightarrow> children b | None \<Rightarrow> tokens st)
      in find (\<lambda>t. type_of t \<noteq> ''whitespace'' \<and> type_of t \<noteq> ''comment'') (rev toks))"

text \<open>
  A block object has no \<open>value\<close>; its type is already outside the two accepted ones.
\<close>

fun regexContextToken :: "token \<Rightarrow> bool" where
  "regexContextToken (Tok ty v p) =
     (ty \<in> set [''symbol'', ''keyword''] \<and>
      v \<in> set [''='', ''('', ''['', '','', ''return'', ''throw''])"
| "regexContextToken (Block opn cls cs) = False"

definition checkRegex :: "string \<Rightarrow> state \<Rightarrow> bool" where
  "checkRegex inp st =
     (if inp ! position st \<noteq> CHR ''/'' then False
      else
        (let regexContext = (case getLastMeaningfulToken st of
                               None \<Rightarrow> True | Some lastToken \<Rightarrow> regexContextToken lastToken)
         in regexContext \<and> position st + 1 < length inp \<and>
            inp ! (position st + 1) \<noteq> CHR ''/'' \<and>
            inp ! (position st + 1) \<noteq> CHR ''=''))"

text \<open>
  The inner loop of \<open>#handleRegex\<close> over the characters from \<open>pos\<close> on. It returns the
  regex text and the value of \<open>pos\<close> after the flags, or \<open>None\<close> where the source throws
  (a raw newline, or the end of the input).
\<close>

fun scanRegex :: "string \<Rightarrow> string \<Rightarrow> nat \<Rightarrow> bool \<Rightarrow> bool \<Rightarrow> (string \<times> nat) option" where
  "scanRegex [] regex pos escaped inCharClass = None"
| "scanRegex (char # rest) regex0 pos escaped inCharClass =
     (let regex = regex0 @ [char] in
      if escaped then scanRegex rest regex (pos + 1) False inCharClass
      else if char = backslash then scanRegex rest regex (pos + 1) True inCharClass
      else if char = CHR ''['' \<and> \<not> inCharClass then scanRegex rest regex (pos + 1) escaped True
      else if char = CHR '']'' \<and> inCharClass then scanRegex rest regex (pos + 1) escaped False
      else if char = CHR ''/'' \<and> \<not> inCharClass then
        (let flags = takeWhile is_flag rest
         in Some (regex @ flags, pos + 1 + length flags))
      else if char = newline then None
      else scanRegex rest regex (pos + 1) escaped inCharClass)"

definition handleRegex :: "string \<Rightarrow> options \<Rightarrow> state \<Rightarrow> tokenizer_error + state" where
  "handleRegex inp opts st0 =
     and_then (flushBuffer inp opts st0) (\<lambda>st.
       case scanRegex (drop (position st + 1) inp) ''/'' (position st + 1) False False of
         None \<Rightarrow> Inl (error inp opts st UnterminatedRegex)
       | Some (regex, pos) \<Rightarrow>
           Inr ((addToken (Tok ''regex'' regex None) st)\<lparr>position := pos - 1\<rparr>))"

subsection \<open>Whitespace, operators, brackets\<close>

definition peek :: "string \<Rightarrow> state \<Rightarrow> char option" where
  "peek inp st =
     (if position st + 1 < length inp then Some (inp ! (position st + 1)) else None)"

definition updatePosition :: "string \<Rightarrow> char \<Rightarrow> state \<Rightarrow> state" where
  "updatePosition inp char st =
     (if char = newline then st\<lparr>line := line st + 1, column := 1\<rparr>
      else if char = carriage_return then
        (let st1 = (if peek inp st = Some newline
                    then st\<lparr>position := position st + 1\<rparr> else st)
         in st1\<lparr>line := line st1 + 1, column := 1\<rparr>)
      else st)"

definition threeCharOps :: "string list" where
  "threeCharOps = [''==='', ''!=='']"

definition twoCharOps :: "string list" where
  "twoCharOps = [''=='', ''!='', ''<='', ''>='', ''=>'', ''&&'', ''||'', ''++'', ''--'',
                 ''+='', ''-='', ''*='', ''/='']"

definition checkMultiCharOperator :: "string \<Rightarrow> state \<Rightarrow> bool" where
  "checkMultiCharOperator inp st =
     (let remaining = slice inp (position st) (position st + 3) in
      if take 3 remaining \<in> set threeCharOps then True
      else take 2 remaining \<in> set twoCharOps)"

definition handleMultiCharOperator :: "string \<Rightarrow> options \<Rightarrow> state \<Rightarrow> tokenizer_error + state" where
  "handleMultiCharOperator inp opts st0 =
     and_then (flushBuffer inp opts st0) (\<lambda>st.
       let remaining = slice inp (position st) (position st + 3) in
       if take 3 remaining \<in> set threeCharOps then
         Inr ((addToken (Tok ''symbol'' (take 3 remaining) None) st)
                \<lparr>position := position st + 2\<rparr>)
       else if take 2 remaining \<in> set twoCharOps then
         Inr ((addToken (Tok ''symbol'' (take 2 remaining) None) st)
                \<lparr>position := position st + 1\<rparr>)
       else Inr st)"

definition closers :: "char \<Rightarrow> char" where
  "closers c = (if c = CHR ''['' then CHR '']'' else if c = CHR ''{'' then CHR ''}'' else CHR '')'')"

text \<open>
  \<open>#startBlock\<close> is called on the three openers only. The new block becomes the current
  container; it reaches its parent's children in \<open>finishBlock\<close> (see \<open>block\<close> above).
\<close>

definition startBlock :: "string \<Rightarrow> options \<Rightarrow> char \<Rightarrow> state \<Rightarrow> tokenizer_error + state" where
  "startBlock inp opts char st0 =
     and_then (flushBuffer inp opts st0) (\<lambda>st.
       Inr (st\<lparr>tokenStack :=
                 \<lparr>opener = char, closer = closers char, children = []\<rparr> # tokenStack st\<rparr>))"

definition finishBlock :: "string \<Rightarrow> options \<Rightarrow> char \<Rightarrow> state \<Rightarrow> tokenizer_error + state" where
  "finishBlock inp opts char st0 =
     and_then (flushBuffer inp opts st0) (\<lambda>st.
       case tokenStack st of
         [] \<Rightarrow> Inl (error inp opts st (UnbalancedClosing char))
       | blk # rest \<Rightarrow>
           if closer blk \<noteq> char
           then Inl (error inp opts st (MismatchedBrackets (closer blk) char))
           else Inr (addToken (Block (opener blk) (closer blk) (children blk))
                       (st\<lparr>tokenStack := rest\<rparr>)))"

subsection \<open>The driver\<close>

text \<open>The first-match dispatch of one iteration, on the character at \<open>position\<close>.\<close>

definition dispatch :: "string \<Rightarrow> options \<Rightarrow> char \<Rightarrow> state \<Rightarrow> tokenizer_error + state" where
  "dispatch inp opts char st =
     (if inString st then Inr (handleStringContent inp char st)
      else if checkComment inp st then handleComment inp opts st
      else if allowRegex opts \<and> checkRegex inp st then handleRegex inp opts st
      else if is_quote char then startString inp opts char st
      else if is_space char then
        and_then (flushBuffer inp opts st) (\<lambda>st1.
          let st2 = (if preserveWhitespace opts
                     then addToken (Tok ''whitespace'' [char] None) st1 else st1)
          in Inr (updatePosition inp char st2))
      else if is_digit char \<or> (char = CHR ''.'' \<and> (case peek inp st of
                                   None \<Rightarrow> False | Some c \<Rightarrow> is_digit c)) then
        Inr (st\<lparr>tokenBuffer := tokenBuffer st @ [char]\<rparr>)
      else if is_ident char then
        Inr (st\<lparr>tokenBuffer := tokenBuffer st @ [char]\<rparr>)
      else if checkMultiCharOperator inp st then handleMultiCharOperator inp opts st
      else if is_symbol char then
        and_then (flushBuffer inp opts st) (\<lambda>st1.
          Inr (addToken (Tok ''symbol'' [char] None) st1))
      else if is_opener char then startBlock inp opts char st
      else if is_closer char then finishBlock inp opts char st
      else Inl (error inp opts st (UnexpectedCharacter char)))"

text \<open>
  One iteration of the \<open>while\<close> loop: the dispatch, then \<open>position++\<close> and the column
  increment for every character but LF and CR.
\<close>

definition step :: "string \<Rightarrow> options \<Rightarrow> state \<Rightarrow> tokenizer_error + state" where
  "step inp opts st =
     (let char = inp ! position st in
      and_then (dispatch inp opts char st) (\<lambda>st1.
        Inr (st1\<lparr>position := position st1 + 1,
                 column := (if char \<noteq> newline \<and> char \<noteq> carriage_return
                            then column st1 + 1 else column st1)\<rparr>)))"

subsection \<open>The loop terminates: every iteration moves \<open>position\<close> forward\<close>

lemma addToken_position [simp]: "position (addToken t st) = position st"
  by (simp add: addToken_def split: list.splits)

lemma finishToken_position [simp]: "position (finishToken ty st) = position st"
  by (simp add: finishToken_def)

lemma flushBuffer_position: "flushBuffer inp opts st = Inr st' \<Longrightarrow> position st' = position st"
  by (auto simp: flushBuffer_def split: if_splits)

lemma and_then_Inr: "and_then r f = Inr y \<longleftrightarrow> (\<exists>x. r = Inr x \<and> f x = Inr y)"
  by (cases r) (simp_all add: and_then_def)

lemma scanRegex_pos: "scanRegex cs regex pos esc cls = Some (r, pos') \<Longrightarrow> pos < pos'"
  by (induction cs regex pos esc cls rule: scanRegex.induct)
     (fastforce simp: Let_def split: if_splits)+

lemma find_from_single_pos:
  "find_from [c] (x # xs) = Some i \<Longrightarrow> x \<noteq> c \<Longrightarrow> 0 < i"
  by (auto simp: startsWith_def split: if_splits)

lemma startsWith_Cons2:
  "startsWith xs [a, b] \<Longrightarrow> \<exists>rest. xs = a # b # rest"
  by (cases xs; cases "tl xs") (auto simp: startsWith_def)

lemma indexOf_newline_after:
  assumes "indexOf inp [newline] p = Some i" "drop p inp = x # rest" "x \<noteq> newline"
  shows "p < i"
proof -
  from assms(1,2) obtain j where j: "find_from [newline] (x # rest) = Some j" and i: "i = p + j"
    by (auto simp: indexOf_def)
  from find_from_single_pos [OF j assms(3)] i show ?thesis by simp
qed

lemma indexOf_from: "indexOf inp pat p = Some i \<Longrightarrow> p \<le> i"
  by (auto simp: indexOf_def)

lemma handleComment_position:
  assumes "handleComment inp opts st = Inr st'"
  shows "position st \<le> position st'"
proof -
  from assms obtain st1 where fl: "flushBuffer inp opts st = Inr st1"
    and body: "(let remaining = drop (position st1) inp in
       if startsWith remaining ''//'' then
         (let commentEnd = (case indexOf inp [newline] (position st1) of
                              None \<Rightarrow> length inp | Some endIndex \<Rightarrow> endIndex);
              comment = slice inp (position st1) commentEnd;
              st2 = (if preserveComments opts
                     then addToken (Tok ''comment'' comment None) st1 else st1)
          in Inr (st2\<lparr>position := commentEnd - 1\<rparr>))
       else if startsWith remaining ''/*'' then
         (case indexOf inp ''*/'' (position st1 + 2) of
            None \<Rightarrow> Inl (error inp opts st1 UnclosedComment)
          | Some endIndex \<Rightarrow>
              (let comment = slice inp (position st1) (endIndex + 2);
                   st2 = (if preserveComments opts
                          then addToken (Tok ''comment'' comment None) st1 else st1);
                   lines = split_on newline comment;
                   st3 = st2\<lparr>line := line st2 + (length lines - 1)\<rparr>;
                   st4 = (if length lines > 1
                          then st3\<lparr>column := length (last lines)\<rparr> else st3)
               in Inr (st4\<lparr>position := endIndex + 1\<rparr>)))
       else Inr st1) = Inr st'"
    unfolding handleComment_def and_then_Inr by blast
  have p: "position st1 = position st" using fl by (rule flushBuffer_position)
  show ?thesis
  proof (cases "startsWith (drop (position st) inp) ''//''")
    case True
    then obtain rest where d: "drop (position st) inp = CHR ''/'' # CHR ''/'' # rest"
      using startsWith_Cons2 by blast
    then have len: "position st < length inp"
      by (metis drop_eq_Nil list.distinct(1) not_le)
    show ?thesis
    proof (cases "indexOf inp [newline] (position st)")
      case None
      with body True p len show ?thesis by (auto simp: Let_def)
    next
      case (Some i)
      have "position st < i"
        using indexOf_newline_after [OF Some d] by (simp add: newline_def)
      with body True p Some show ?thesis by (auto simp: Let_def)
    qed
  next
    case False
    with body p show ?thesis
      by (auto simp: Let_def split: if_splits option.splits dest: indexOf_from)
  qed
qed

lemma handleRegex_position:
  assumes "handleRegex inp opts st = Inr st'"
  shows "position st < position st'"
proof -
  from assms obtain st1 regex pos where fl: "flushBuffer inp opts st = Inr st1"
    and sc: "scanRegex (drop (position st1 + 1) inp) ''/'' (position st1 + 1) False False
               = Some (regex, pos)"
    and res: "st' = (addToken (Tok ''regex'' regex None) st1)\<lparr>position := pos - 1\<rparr>"
    by (auto simp: handleRegex_def and_then_Inr split: option.splits)
  from sc have "position st1 + 1 < pos" by (rule scanRegex_pos)
  with res flushBuffer_position [OF fl] show ?thesis by simp
qed

lemma updatePosition_position: "position st \<le> position (updatePosition inp c st)"
  by (simp add: updatePosition_def Let_def)

lemma handleStringContent_position: "position st \<le> position (handleStringContent inp c st)"
  by (simp add: handleStringContent_def)

lemma startString_position:
  "startString inp opts c st = Inr st' \<Longrightarrow> position st \<le> position st'"
  by (auto simp: startString_def and_then_Inr dest!: flushBuffer_position)

lemma handleMultiCharOperator_position:
  "handleMultiCharOperator inp opts st = Inr st' \<Longrightarrow> position st \<le> position st'"
  by (auto simp: handleMultiCharOperator_def and_then_Inr Let_def
           split: if_splits dest!: flushBuffer_position)

lemma startBlock_position:
  "startBlock inp opts c st = Inr st' \<Longrightarrow> position st \<le> position st'"
  by (auto simp: startBlock_def and_then_Inr dest!: flushBuffer_position)

lemma finishBlock_position:
  assumes "finishBlock inp opts c st = Inr st'"
  shows "position st \<le> position st'"
proof -
  from assms obtain st1 where fl: "flushBuffer inp opts st = Inr st1"
    and body: "(case tokenStack st1 of
         [] \<Rightarrow> Inl (error inp opts st1 (UnbalancedClosing c))
       | blk # rest \<Rightarrow>
           if closer blk \<noteq> c
           then Inl (error inp opts st1 (MismatchedBrackets (closer blk) c))
           else Inr (addToken (Block (opener blk) (closer blk) (children blk))
                       (st1\<lparr>tokenStack := rest\<rparr>))) = Inr st'"
    unfolding finishBlock_def and_then_Inr by blast
  from body have "position st' = position st1"
    by (cases "tokenStack st1") (auto split: if_splits)
  with flushBuffer_position [OF fl] show ?thesis by simp
qed

lemma whitespace_position:
  assumes "and_then (flushBuffer inp opts st) (\<lambda>st1.
          let st2 = (if preserveWhitespace opts
                     then addToken (Tok ''whitespace'' [c] None) st1 else st1)
          in Inr (updatePosition inp c st2)) = Inr st'"
  shows "position st \<le> position st'"
proof -
  from assms obtain st1 where fl: "flushBuffer inp opts st = Inr st1"
    and res: "(let st2 = (if preserveWhitespace opts
                     then addToken (Tok ''whitespace'' [c] None) st1 else st1)
          in Inr (updatePosition inp c st2)) = (Inr st' :: tokenizer_error + state)"
    unfolding and_then_Inr by blast
  define st2 where "st2 = (if preserveWhitespace opts
                     then addToken (Tok ''whitespace'' [c] None) st1 else st1)"
  have "position st2 = position st1" by (simp add: st2_def)
  moreover have "st' = updatePosition inp c st2" using res by (simp add: st2_def)
  ultimately have "position st1 \<le> position st'"
    using updatePosition_position [of st2 inp c] by simp
  with flushBuffer_position [OF fl] show ?thesis by simp
qed

lemma symbol_position:
  "and_then (flushBuffer inp opts st) (\<lambda>st1.
      Inr (addToken (Tok ''symbol'' [c] None) st1)) = Inr st' \<Longrightarrow> position st \<le> position st'"
  by (auto simp: and_then_Inr dest!: flushBuffer_position)

text \<open>A result that has not moved \<open>position\<close> back: an error, or a state at or after it.\<close>

definition advances :: "state \<Rightarrow> tokenizer_error + state \<Rightarrow> bool" where
  "advances st r = (case r of Inl e \<Rightarrow> True | Inr st' \<Rightarrow> position st \<le> position st')"

lemma advancesI: "(\<And>st'. r = Inr st' \<Longrightarrow> position st \<le> position st') \<Longrightarrow> advances st r"
  by (cases r) (simp_all add: advances_def)

lemma advances_handlers:
  "advances st (Inr (handleStringContent inp c st))"
  "advances st (handleComment inp opts st)"
  "advances st (handleRegex inp opts st)"
  "advances st (startString inp opts c st)"
  "advances st (and_then (flushBuffer inp opts st) (\<lambda>st1.
          let st2 = (if preserveWhitespace opts
                     then addToken (Tok ''whitespace'' [c] None) st1 else st1)
          in Inr (updatePosition inp c st2)))"
  "advances st (Inr (st\<lparr>tokenBuffer := tokenBuffer st @ [c]\<rparr>))"
  "advances st (handleMultiCharOperator inp opts st)"
  "advances st (and_then (flushBuffer inp opts st) (\<lambda>st1.
          Inr (addToken (Tok ''symbol'' [c] None) st1)))"
  "advances st (startBlock inp opts c st)"
  "advances st (finishBlock inp opts c st)"
  "advances st (Inl e)"
  subgoal by (simp add: advances_def handleStringContent_position)
  subgoal by (rule advancesI) (rule handleComment_position)
  subgoal by (rule advancesI) (rule order_less_imp_le, rule handleRegex_position)
  subgoal by (rule advancesI) (rule startString_position)
  subgoal by (rule advancesI) (rule whitespace_position)
  subgoal by (simp add: advances_def)
  subgoal by (rule advancesI) (rule handleMultiCharOperator_position)
  subgoal by (rule advancesI) (rule symbol_position)
  subgoal by (rule advancesI) (rule startBlock_position)
  subgoal by (rule advancesI) (rule finishBlock_position)
  subgoal by (simp add: advances_def)
  done

lemma dispatch_advances: "advances st (dispatch inp opts c st)"
  unfolding dispatch_def by (simp only: advances_handlers if_split [of "advances st"] simp_thms if_True if_False)

lemma dispatch_position:
  "dispatch inp opts c st = Inr st' \<Longrightarrow> position st \<le> position st'"
  using dispatch_advances [of st inp opts c] by (simp add: advances_def)

lemma step_position:
  "step inp opts st = Inr st' \<Longrightarrow> position st < position st'"
  by (auto simp: step_def Let_def and_then_Inr dest!: dispatch_position)

function loop :: "string \<Rightarrow> options \<Rightarrow> state \<Rightarrow> tokenizer_error + state" where
  "loop inp opts st =
     (if position st < length inp then
        (case step inp opts st of Inl e \<Rightarrow> Inl e | Inr st' \<Rightarrow> loop inp opts st')
      else Inr st)"
  by pat_completeness auto
termination
proof (relation "measure (\<lambda>(inp, opts, st). length inp - position st)")
  show "wf (measure (\<lambda>(inp, opts, st). length inp - position st))" by (rule wf_measure)
next
  fix inp :: string and opts :: options and st st' :: state
  assume "position st < length inp" and "step inp opts st = Inr st'"
  then have "length inp - position st' < length inp - position st"
    using step_position [of inp opts st st'] by arith
  then show "((inp, opts, st'), (inp, opts, st)) \<in> measure (\<lambda>(inp, opts, st). length inp - position st)"
    by simp
qed

declare loop.simps [simp del]

subsection \<open>The public methods\<close>

text \<open>
  \<open>tokenize()\<close> on an instance whose fields are \<open>st0\<close>: the loop, the last flush and the
  two checks. It returns the token sequence and the fields it leaves behind. After the
  check for unclosed blocks \<open>tokenStack\<close> is empty, so \<open>#currentBlock\<close> is \<open>null\<close> and
  \<open>this.#currentBlock || this.#tokens\<close> is \<open>#tokens\<close>.
\<close>

definition tokenize :: "string \<Rightarrow> options \<Rightarrow> state \<Rightarrow> tokenizer_error + (token list \<times> state)" where
  "tokenize inp opts st0 =
     and_then (loop inp opts st0) (\<lambda>st1.
     and_then (flushBuffer inp opts st1) (\<lambda>st.
       case tokenStack st of
         unclosed # rest \<Rightarrow> Inl (error inp opts st (UnclosedBlock (opener unclosed)))
       | [] \<Rightarrow>
           if inString st
           then Inl (error inp opts st (UnclosedString (stringDelimiter st)))
           else Inr (tokens st, st)))"

text \<open>\<open>new Tokenizer(inp, opts).tokenize()\<close>: the result of the first call.\<close>

definition scan :: "string \<Rightarrow> options \<Rightarrow> tokenizer_error + token list" where
  "scan inp opts = and_then (tokenize inp opts init) (\<lambda>(toks, st). Inr toks)"

text \<open>
  \<open>filterRecursive\<close> is \<open>tokens.filter(callback)\<close>, and the callback assigns
  \<open>token.children\<close> of every block it visits. The first component is the array returned,
  the second the argument's tokens after those assignments. A block kept in the result is
  the same object as in the argument, so it has the new children in both.
\<close>

fun filterRecursive :: "string \<Rightarrow> token list \<Rightarrow> token list \<times> token list"
  and filterCallback :: "string \<Rightarrow> token \<Rightarrow> bool \<times> token" where
  "filterRecursive ty [] = ([], [])"
| "filterRecursive ty (token # rest) =
     (let (keep, token') = filterCallback ty token;
          (kept, rest') = filterRecursive ty rest
      in (if keep then token' # kept else kept, token' # rest'))"
| "filterCallback ty (Tok tt v p) = (tt = ty, Tok tt v p)"
| "filterCallback ty (Block opn cls cs) =
     (if ''block'' = ty then (True, Block opn cls cs)
      else (let (kept, cs') = filterRecursive ty cs
            in (length kept > 0, Block opn cls kept)))"

text \<open>
  \<open>filter(type)\<close>. With a block still open \<open>this.#currentBlock || this.#tokens\<close> is a
  block object, which has no method \<open>filter\<close>: the call throws a TypeError (\<open>None\<close>).
\<close>

definition filter_tokens :: "string \<Rightarrow> state \<Rightarrow> (token list \<times> state) option" where
  "filter_tokens ty st =
     (case currentBlock st of
        Some b \<Rightarrow> None
      | None \<Rightarrow> (let (kept, toks') = filterRecursive ty (tokens st)
                 in Some (kept, st\<lparr>tokens := toks'\<rparr>)))"

text \<open>
  The first \<open>n\<close> iterations of the loop of \<open>tokenize()\<close> (fewer when the input ends
  before): the states the scanner goes through.
\<close>

fun run :: "nat \<Rightarrow> string \<Rightarrow> options \<Rightarrow> state \<Rightarrow> tokenizer_error + state" where
  "run 0 inp opts st = Inr st"
| "run (Suc n) inp opts st =
     (if position st < length inp then and_then (step inp opts st) (run n inp opts)
      else Inr st)"

subsection \<open>Vocabulary of the properties\<close>

text \<open>
  The body of a string literal delimited by \<open>d\<close>, as \<open>#handleStringContent\<close> reads it:
  a backslash takes the next character with it, whatever it is, and no other character
  of the body is \<open>d\<close> or a lone backslash.
\<close>

fun raw_body :: "char \<Rightarrow> string \<Rightarrow> bool" where
  "raw_body d [] = True"
| "raw_body d [c] = (c \<noteq> backslash \<and> c \<noteq> d)"
| "raw_body d (c # c' # cs) =
     (if c = backslash then raw_body d cs else c \<noteq> d \<and> raw_body d (c' # cs))"

text \<open>
  What the driver adds to \<open>column\<close> while it reads that body: one per iteration, but
  none for an iteration on LF or CR. An escape is one iteration.
\<close>

fun string_columns :: "string \<Rightarrow> nat" where
  "string_columns [] = 0"
| "string_columns [c] = (if c \<noteq> newline \<and> c \<noteq> carriage_return then 1 else 0)"
| "string_columns (c # c' # cs) =
     (if c = backslash then 1 + string_columns cs
      else (if c \<noteq> newline \<and> c \<noteq> carriage_return then 1 else 0) + string_columns (c' # cs))"

text \<open>
  A token without position: \<open>token.position\<close> is \<open>undefined\<close>, on the token and on
  every token below it.
\<close>

fun unpositioned :: "token \<Rightarrow> bool" where
  "unpositioned (Tok ty v p) = (p = None)"
| "unpositioned (Block opn cls cs) = (\<forall>t \<in> set cs. unpositioned t)"

definition all_unpositioned :: "state \<Rightarrow> bool" where
  "all_unpositioned st =
     ((\<forall>t \<in> set (tokens st). unpositioned t) \<and>
      (\<forall>b \<in> set (tokenStack st). \<forall>t \<in> set (children b). unpositioned t))"

text \<open>A result that is an error, or a state none of whose tokens has a position.\<close>

definition keeps :: "tokenizer_error + state \<Rightarrow> bool" where
  "keeps r = (case r of Inl e \<Rightarrow> True | Inr st' \<Rightarrow> all_unpositioned st')"

section \<open>Properties\<close>

subsection \<open>Facts about the loop\<close>

lemma and_then_simps [simp]:
  "and_then (Inl e) f = Inl e" "and_then (Inr x) f = f x"
  by (simp_all add: and_then_def)

lemma loop_run: "run n inp opts st0 = Inr st \<Longrightarrow> loop inp opts st0 = loop inp opts st"
proof (induction n arbitrary: st0)
  case 0
  then show ?case by simp
next
  case (Suc n)
  show ?case
  proof (cases "position st0 < length inp")
    case True
    with Suc.prems obtain st1 where s: "step inp opts st0 = Inr st1" and r: "run n inp opts st1 = Inr st"
      by (auto simp: and_then_Inr)
    have "loop inp opts st0 = loop inp opts st1"
      using True s by (subst loop.simps) simp
    with Suc.IH [OF r] show ?thesis by simp
  next
    case False
    with Suc.prems show ?thesis by simp
  qed
qed

lemma loop_end: "\<not> position st < length inp \<Longrightarrow> loop inp opts st = Inr st"
  by (subst loop.simps) simp

lemma loop_step_Inl:
  "position st < length inp \<Longrightarrow> step inp opts st = Inl e \<Longrightarrow> loop inp opts st = Inl e"
  by (subst loop.simps) simp

lemma loop_Inr_position: "loop inp opts st0 = Inr st \<Longrightarrow> \<not> position st < length inp"
proof (induction inp opts st0 rule: loop.induct)
  case (1 inp opts st0)
  show ?case
  proof (cases "position st0 < length inp")
    case True
    with "1.prems" obtain st1 where s: "step inp opts st0 = Inr st1" and l: "loop inp opts st1 = Inr st"
      by (subst (asm) loop.simps) (auto split: sum.splits)
    from "1.IH" [OF True s l] show ?thesis .
  next
    case False
    with "1.prems" show ?thesis by (simp add: loop_end)
  qed
qed

lemma flushBuffer_empty: "flushBuffer inp opts st = Inr st' \<Longrightarrow> tokenBuffer st' = []"
  by (auto simp: flushBuffer_def finishToken_def split: if_splits)

lemma flushBuffer_idle: "tokenBuffer st = [] \<Longrightarrow> flushBuffer inp opts st = Inr st"
  by (simp add: flushBuffer_def)

lemma tokenize_Inr:
  assumes "tokenize inp opts st0 = Inr (toks, st)"
  obtains st1 where "loop inp opts st0 = Inr st1" "flushBuffer inp opts st1 = Inr st"
    "tokenStack st = []" "\<not> inString st" "toks = tokens st"
proof -
  from assms obtain st1 st2 where l: "loop inp opts st0 = Inr st1"
    and f: "flushBuffer inp opts st1 = Inr st2"
    and r: "(case tokenStack st2 of
         unclosed # rest \<Rightarrow> Inl (error inp opts st2 (UnclosedBlock (opener unclosed)))
       | [] \<Rightarrow>
           if inString st2
           then Inl (error inp opts st2 (UnclosedString (stringDelimiter st2)))
           else Inr (tokens st2, st2)) = Inr (toks, st)"
    unfolding tokenize_def and_then_Inr by blast
  from r have "tokenStack st2 = [] \<and> \<not> inString st2 \<and> toks = tokens st2 \<and> st = st2"
    by (cases "tokenStack st2"; cases "inString st2") simp_all
  with l f that show thesis by blast
qed

subsection \<open>Running the scanner on a given input\<close>

text \<open>The definitions that a run on a concrete input unfolds.\<close>

lemma replicate_numeral: "replicate (numeral k) x = x # replicate (pred_numeral k) x"
  by (simp add: numeral_eq_Suc)

lemmas eval_defs = scan_def tokenize_def loop.simps step_def dispatch_def init_def
  handleStringContent_def startString_def checkComment_def handleComment_def
  checkRegex_def handleRegex_def flushBuffer_def finishToken_def addToken_def
  is_quote_def is_space_def is_digit_def is_ident_def is_symbol_def is_opener_def is_closer_def
  checkMultiCharOperator_def handleMultiCharOperator_def startBlock_def finishBlock_def
  peek_def updatePosition_def startsWith_def slice_def numeric_def dotCount_def
  newline_def carriage_return_def backslash_def double_quote_def single_quote_def backtick_def
  threeCharOps_def twoCharOps_def error_def Let_def getLastMeaningfulToken_def currentBlock_def
  indexOf_def closers_def replicate_numeral

subsection \<open>The driver on a closing bracket\<close>

lemma drop_at: "p < length inp \<Longrightarrow> drop p inp = inp ! p # drop (Suc p) inp"
  by (simp add: Cons_nth_drop_Suc)

lemma closer_dispatch:
  assumes "\<not> inString st" "position st < length inp" "is_closer (inp ! position st)"
  shows "dispatch inp opts (inp ! position st) st = finishBlock inp opts (inp ! position st) st"
proof -
  define c where "c = inp ! position st"
  have d: "drop (position st) inp = c # drop (Suc (position st)) inp"
    unfolding c_def using assms(2) by (rule drop_at)
  from assms(3) have "c = CHR '']'' \<or> c = CHR ''}'' \<or> c = CHR '')''"
    by (auto simp: is_closer_def c_def)
  then have "dispatch inp opts c st = finishBlock inp opts c st"
    using assms(1) d
    by (elim disjE)
       (simp_all add: dispatch_def checkComment_def startsWith_def checkRegex_def
          is_quote_def is_space_def is_digit_def is_ident_def is_symbol_def is_opener_def
          is_closer_def checkMultiCharOperator_def slice_def threeCharOps_def twoCharOps_def
          backtick_def single_quote_def double_quote_def c_def [symmetric])
  then show ?thesis by (simp add: c_def)
qed

lemma error_cong:
  "position st' = position st \<Longrightarrow> line st' = line st \<Longrightarrow> column st' = column st \<Longrightarrow>
   error inp opts st' m = error inp opts st m"
  by (simp add: error_def)

lemma addToken_fields [simp]:
  "line (addToken t st) = line st" "column (addToken t st) = column st"
  "inString (addToken t st) = inString st" "stringDelimiter (addToken t st) = stringDelimiter st"
  "tokenBuffer (addToken t st) = tokenBuffer st"
  "(tokenStack (addToken t st) = []) = (tokenStack st = [])"
  "map closer (tokenStack (addToken t st)) = map closer (tokenStack st)"
  "map opener (tokenStack (addToken t st)) = map opener (tokenStack st)"
  by (simp_all add: addToken_def split: list.splits)

lemma finishToken_fields [simp]:
  "line (finishToken ty st) = line st" "column (finishToken ty st) = column st"
  "inString (finishToken ty st) = inString st"
  "stringDelimiter (finishToken ty st) = stringDelimiter st"
  "(tokenStack (finishToken ty st) = []) = (tokenStack st = [])"
  "map closer (tokenStack (finishToken ty st)) = map closer (tokenStack st)"
  "map opener (tokenStack (finishToken ty st)) = map opener (tokenStack st)"
  by (simp_all add: finishToken_def)

lemma flushBuffer_fields:
  assumes "flushBuffer inp opts st = Inr st'"
  shows "line st' = line st" "column st' = column st" "inString st' = inString st"
    "stringDelimiter st' = stringDelimiter st" "(tokenStack st' = []) = (tokenStack st = [])"
    "map closer (tokenStack st') = map closer (tokenStack st)"
    "map opener (tokenStack st') = map opener (tokenStack st)"
  using assms by (auto simp: flushBuffer_def split: if_splits)

lemma flushBuffer_cases:
  "flushBuffer inp opts st =
     (if numeric (tokenBuffer st) \<and> 1 < dotCount (tokenBuffer st)
      then Inl (error inp opts st (InvalidNumber (tokenBuffer st)))
      else Inr (if tokenBuffer st = [] then st
                else finishToken (if numeric (tokenBuffer st) then ''number'' else ''identifier'') st))"
  by (auto simp: flushBuffer_def dotCount_def)

lemma finishBlock_mismatch:
  assumes "tokenStack st = blk # rest" "closer blk \<noteq> c"
  shows "finishBlock inp opts c st =
     Inl (error inp opts st
            (if numeric (tokenBuffer st) \<and> 1 < dotCount (tokenBuffer st)
             then InvalidNumber (tokenBuffer st) else MismatchedBrackets (closer blk) c))"
proof (cases "numeric (tokenBuffer st) \<and> 1 < dotCount (tokenBuffer st)")
  case True
  then show ?thesis by (simp add: finishBlock_def flushBuffer_cases)
next
  case False
  then obtain st1 where f: "flushBuffer inp opts st = Inr st1"
    by (simp add: flushBuffer_cases)
  from flushBuffer_fields(6) [OF f] assms(1)
  obtain blk1 rest1 where s1: "tokenStack st1 = blk1 # rest1" and c1: "closer blk1 = closer blk"
    by (cases "tokenStack st1") auto
  have e: "error inp opts st1 m = error inp opts st m" for m
    using flushBuffer_position [OF f] flushBuffer_fields(1,2) [OF f] by (rule error_cong)
  show ?thesis using False f s1 c1 assms(2) by (auto simp: finishBlock_def e)
qed

lemma scan_loop_Inl: "loop inp opts init = Inl e \<Longrightarrow> scan inp opts = Inl e"
  by (simp add: scan_def tokenize_def)

subsection \<open>The driver on a string literal\<close>

lemma drop_Cons_facts:
  assumes "drop p inp = x # xs"
  shows "p < length inp" "inp ! p = x" "drop (Suc p) inp = xs"
proof -
  show p: "p < length inp" using assms by (metis drop_eq_Nil list.distinct(1) not_le)
  from Cons_nth_drop_Suc [OF p] assms show "inp ! p = x" "drop (Suc p) inp = xs" by simp_all
qed

lemma loop_step:
  "position st < length inp \<Longrightarrow> step inp opts st = Inr st' \<Longrightarrow> loop inp opts st = loop inp opts st'"
  by (subst loop.simps) simp

lemma string_char_step:
  assumes "inString st" "stringDelimiter st = Some d" "drop (position st) inp = c # xs"
    "c \<noteq> backslash" "c \<noteq> d"
  shows "loop inp opts st =
         loop inp opts (st\<lparr>tokenBuffer := tokenBuffer st @ [c], position := position st + 1,
                           column := column st + (if c \<noteq> newline \<and> c \<noteq> carriage_return then 1 else 0)\<rparr>)"
proof -
  note d = drop_Cons_facts [OF assms(3)]
  have "step inp opts st =
     Inr (st\<lparr>tokenBuffer := tokenBuffer st @ [c], position := position st + 1,
                           column := column st + (if c \<noteq> newline \<and> c \<noteq> carriage_return then 1 else 0)\<rparr>)"
    using assms(1,2,4,5) d(2) by (simp add: step_def dispatch_def handleStringContent_def)
  with d(1) show ?thesis by (rule loop_step)
qed

lemma string_escape_step:
  assumes "inString st" "drop (position st) inp = backslash # c # xs"
  shows "loop inp opts st =
         loop inp opts (st\<lparr>tokenBuffer := tokenBuffer st @ [backslash, c],
                           position := position st + 2, column := column st + 1\<rparr>)"
proof -
  note d = drop_Cons_facts [OF assms(2)]
  note d' = drop_Cons_facts [OF d(3)]
  have "step inp opts st =
     Inr (st\<lparr>tokenBuffer := tokenBuffer st @ [backslash, c],
                           position := position st + 2, column := column st + 1\<rparr>)"
    using assms(1) d(2) d'(1,2)
    by (simp add: step_def dispatch_def handleStringContent_def backslash_def newline_def
          carriage_return_def)
  with d(1) show ?thesis by (rule loop_step)
qed

lemma string_body:
  assumes "raw_body d body" "inString st" "stringDelimiter st = Some d"
    "drop (position st) inp = body @ d # rest"
  shows "loop inp opts st =
         loop inp opts (st\<lparr>tokenBuffer := tokenBuffer st @ body,
                           position := position st + length body,
                           column := column st + string_columns body\<rparr>)"
  using assms
proof (induction d body arbitrary: st rule: raw_body.induct)
  case (1 d)
  then show ?case by simp
next
  case (2 d c)
  then have "c \<noteq> backslash" "c \<noteq> d" "drop (position st) inp = c # d # rest" by simp_all
  from string_char_step [OF "2.prems"(2,3) this(3,1,2)] show ?case by simp
next
  case (3 d c c' cs)
  show ?case
  proof (cases "c = backslash")
    case True
    let ?st = "st\<lparr>tokenBuffer := tokenBuffer st @ [backslash, c'],
                           position := position st + 2, column := column st + 1\<rparr>"
    from "3.prems" True have dr: "drop (position st) inp = backslash # c' # cs @ d # rest"
      and rb: "raw_body d cs" by simp_all
    have s: "loop inp opts st = loop inp opts ?st"
      using "3.prems"(2) dr by (rule string_escape_step)
    have "drop (position ?st) inp = cs @ d # rest"
      using drop_Cons_facts(3) [OF drop_Cons_facts(3) [OF dr]] by simp
    from "3.IH"(1) [OF True rb _ _ this] "3.prems"(2,3)
    have "loop inp opts ?st = loop inp opts (?st\<lparr>tokenBuffer := tokenBuffer ?st @ cs,
                           position := position ?st + length cs,
                           column := column ?st + string_columns cs\<rparr>)"
      by simp
    with s True show ?thesis by simp
  next
    case False
    let ?k = "if c \<noteq> newline \<and> c \<noteq> carriage_return then 1 else 0 :: nat"
    let ?st = "st\<lparr>tokenBuffer := tokenBuffer st @ [c], position := position st + 1,
                           column := column st + ?k\<rparr>"
    from "3.prems" False have dr: "drop (position st) inp = c # c' # cs @ d # rest"
      and cd: "c \<noteq> d" and rb: "raw_body d (c' # cs)" by simp_all
    have s: "loop inp opts st = loop inp opts ?st"
      using "3.prems"(2,3) dr False cd by (rule string_char_step)
    have "drop (position ?st) inp = (c' # cs) @ d # rest"
      using drop_Cons_facts(3) [OF dr] by simp
    from "3.IH"(2) [OF False rb _ _ this] "3.prems"(2,3)
    have "loop inp opts ?st = loop inp opts (?st\<lparr>tokenBuffer := tokenBuffer ?st @ c' # cs,
                           position := position ?st + length (c' # cs),
                           column := column ?st + string_columns (c' # cs)\<rparr>)"
      by simp
    with s False show ?thesis by simp
  qed
qed


lemma quote_dispatch:
  assumes "\<not> inString st" "position st < length inp" "is_quote (inp ! position st)"
  shows "dispatch inp opts (inp ! position st) st = startString inp opts (inp ! position st) st"
proof -
  define c where "c = inp ! position st"
  have d: "drop (position st) inp = c # drop (Suc (position st)) inp"
    unfolding c_def using assms(2) by (rule drop_at)
  from assms(3) have "c = backtick \<or> c = single_quote \<or> c = double_quote"
    by (simp add: is_quote_def c_def)
  then have "dispatch inp opts c st = startString inp opts c st"
    using assms(1) d
    by (elim disjE)
       (simp_all add: dispatch_def checkComment_def startsWith_def checkRegex_def
          is_quote_def backtick_def single_quote_def double_quote_def c_def [symmetric])
  then show ?thesis by (simp add: c_def)
qed

lemma is_quote_plain:
  "is_quote d \<Longrightarrow> d \<noteq> backslash \<and> d \<noteq> newline \<and> d \<noteq> carriage_return"
  by (auto simp: is_quote_def backtick_def single_quote_def double_quote_def backslash_def
        newline_def carriage_return_def)

lemma string_close_step:
  assumes "inString st" "stringDelimiter st = Some d" "drop (position st) inp = d # rest"
    "is_quote d"
  shows "loop inp opts st =
         loop inp opts ((finishToken ''string'' st)
                          \<lparr>inString := False, stringDelimiter := None,
                           position := position st + 1, column := column st + 1\<rparr>)"
proof -
  note d = drop_Cons_facts [OF assms(3)]
  have "step inp opts st =
     Inr ((finishToken ''string'' st)
                          \<lparr>inString := False, stringDelimiter := None,
                           position := position st + 1, column := column st + 1\<rparr>)"
    using assms(1,2) d(2) is_quote_plain [OF assms(4)]
    by (simp add: step_def dispatch_def handleStringContent_def)
  with d(1) show ?thesis by (rule loop_step)
qed

subsection \<open>No token has a position\<close>

text \<open>
  Every token is built as \<open>{type, value}\<close> or as a block of tokens already emitted, so
  the tokens of the state never have a position, whatever the input and the options.
\<close>

lemma all_unpositioned_update [simp]:
  "all_unpositioned (st\<lparr>tokenBuffer := buf\<rparr>) = all_unpositioned st"
  "all_unpositioned (st\<lparr>position := p\<rparr>) = all_unpositioned st"
  "all_unpositioned (st\<lparr>line := l\<rparr>) = all_unpositioned st"
  "all_unpositioned (st\<lparr>column := c\<rparr>) = all_unpositioned st"
  "all_unpositioned (st\<lparr>inString := b\<rparr>) = all_unpositioned st"
  "all_unpositioned (st\<lparr>stringDelimiter := d\<rparr>) = all_unpositioned st"
  by (simp_all add: all_unpositioned_def)

lemma all_unpositioned_addToken:
  "all_unpositioned st \<Longrightarrow> unpositioned t \<Longrightarrow> all_unpositioned (addToken t st)"
  by (cases "tokenStack st") (auto simp: all_unpositioned_def addToken_def)

lemma all_unpositioned_finishToken:
  "all_unpositioned st \<Longrightarrow> all_unpositioned (finishToken ty st)"
  by (simp add: finishToken_def all_unpositioned_addToken)

lemma all_unpositioned_flushBuffer:
  "all_unpositioned st \<Longrightarrow> flushBuffer inp opts st = Inr st' \<Longrightarrow> all_unpositioned st'"
  by (auto simp: flushBuffer_def all_unpositioned_finishToken split: if_splits)

lemma keeps_simps [simp]: "keeps (Inl e)" "keeps (Inr st) = all_unpositioned st"
  by (simp_all add: keeps_def)

lemma keeps_flush:
  assumes "all_unpositioned st" and "\<And>st1. all_unpositioned st1 \<Longrightarrow> keeps (f st1)"
  shows "keeps (and_then (flushBuffer inp opts st) f)"
proof (cases "flushBuffer inp opts st")
  case (Inl e)
  then show ?thesis by simp
next
  case (Inr st1)
  with assms show ?thesis by (simp add: all_unpositioned_flushBuffer)
qed

lemma keeps_handlers:
  assumes "all_unpositioned st"
  shows "keeps (Inr (handleStringContent inp c st))"
    "keeps (handleComment inp opts st)"
    "keeps (handleRegex inp opts st)"
    "keeps (startString inp opts c st)"
    "keeps (and_then (flushBuffer inp opts st) (\<lambda>st1.
          let st2 = (if preserveWhitespace opts
                     then addToken (Tok ''whitespace'' [c] None) st1 else st1)
          in Inr (updatePosition inp c st2)))"
    "keeps (Inr (st\<lparr>tokenBuffer := tokenBuffer st @ [c]\<rparr>))"
    "keeps (handleMultiCharOperator inp opts st)"
    "keeps (and_then (flushBuffer inp opts st) (\<lambda>st1.
          Inr (addToken (Tok ''symbol'' [c] None) st1)))"
    "keeps (startBlock inp opts c st)"
    "keeps (finishBlock inp opts c st)"
  subgoal using assms by (simp add: handleStringContent_def all_unpositioned_finishToken)
  subgoal unfolding handleComment_def using assms
    by (rule keeps_flush)
       (simp add: Let_def all_unpositioned_addToken split: option.splits)
  subgoal unfolding handleRegex_def using assms
    by (rule keeps_flush) (simp add: all_unpositioned_addToken split: option.splits)
  subgoal unfolding startString_def using assms by (rule keeps_flush) simp
  subgoal using assms
    by (rule keeps_flush) (simp add: Let_def updatePosition_def all_unpositioned_addToken)
  subgoal using assms by simp
  subgoal unfolding handleMultiCharOperator_def using assms
    by (rule keeps_flush) (simp add: Let_def all_unpositioned_addToken)
  subgoal using assms by (rule keeps_flush) (simp add: all_unpositioned_addToken)
  subgoal unfolding startBlock_def using assms
    by (rule keeps_flush) (simp add: all_unpositioned_def)
  subgoal unfolding finishBlock_def using assms
    by (rule keeps_flush)
       (auto simp: all_unpositioned_def addToken_def split: list.splits)
  done

lemma all_unpositioned_dispatch:
  assumes "all_unpositioned st"
  shows "keeps (dispatch inp opts c st)"
  unfolding dispatch_def
  by (simp only: keeps_handlers [OF assms] keeps_simps(1) if_split [of keeps] simp_thms if_True if_False)

lemma all_unpositioned_step:
  assumes "all_unpositioned st" "step inp opts st = Inr st'"
  shows "all_unpositioned st'"
proof -
  from assms(2) obtain st1 where d: "dispatch inp opts (inp ! position st) st = Inr st1"
    and s: "st' = st1\<lparr>position := position st1 + 1,
                 column := (if inp ! position st \<noteq> newline \<and> inp ! position st \<noteq> carriage_return
                            then column st1 + 1 else column st1)\<rparr>"
    by (auto simp: step_def Let_def and_then_Inr)
  from all_unpositioned_dispatch [OF assms(1), of inp opts "inp ! position st"] d
  have "all_unpositioned st1" by simp
  then show ?thesis by (simp add: s)
qed

lemma all_unpositioned_loop:
  "all_unpositioned st0 \<Longrightarrow> loop inp opts st0 = Inr st \<Longrightarrow> all_unpositioned st"
proof (induction inp opts st0 rule: loop.induct)
  case (1 inp opts st0)
  show ?case
  proof (cases "position st0 < length inp")
    case True
    with "1.prems"(2) obtain st1 where s: "step inp opts st0 = Inr st1"
      and l: "loop inp opts st1 = Inr st"
      by (subst (asm) loop.simps) (auto split: sum.splits)
    from "1.IH" [OF True s all_unpositioned_step [OF "1.prems"(1) s] l] show ?thesis .
  next
    case False
    with "1.prems" show ?thesis by (simp add: loop_end)
  qed
qed

lemma tokens_never_positioned:
  assumes "scan inp opts = Inr toks" and "t \<in> set toks"
  shows "unpositioned t"
proof -
  from assms(1) obtain st where t: "tokenize inp opts init = Inr (toks, st)"
    by (auto simp: scan_def and_then_Inr)
  then obtain st1 where l: "loop inp opts init = Inr st1"
    and f: "flushBuffer inp opts st1 = Inr st" and k: "toks = tokens st"
    by (rule tokenize_Inr)
  have "all_unpositioned init" by (simp add: all_unpositioned_def init_def)
  then have "all_unpositioned st1" using l by (rule all_unpositioned_loop)
  then have "all_unpositioned st" using f by (rule all_unpositioned_flushBuffer)
  with k assms(2) show ?thesis by (simp add: all_unpositioned_def)
qed

text \<open>
  C1. With position tracking enabled (\<open>trackPosition\<close>, the default), every token
  emitted by \<open>tokenize()\<close> should carry a position \<open>{start, end}\<close>. The code builds
  every token as \<open>{type, value}\<close> and reads \<open>trackPosition\<close> in \<open>#error\<close> only: on the
  input \<open>x\<close> with the default options the one token emitted has no position
  (\<open>tokens_never_positioned\<close> above: no token of any input has one).
\<close>

theorem emitted_token_has_no_position:
  "trackPosition default_options
   \<and> scan ''x'' default_options = Inr [Tok ''identifier'' ''x'' None]
   \<and> position_of (Tok ''identifier'' ''x'' None) = None"
  by (simp add: eval_defs default_options_def)

subsection \<open>String literals\<close>

text \<open>
  The claim C2 as stated, that the value of a string token contains its quote
  characters, fails on the input \<open>"ab"\<close>: the value is \<open>ab\<close>.
\<close>

theorem string_value_counterexample:
  "scan [CHR 0x22, CHR ''a'', CHR ''b'', CHR 0x22] default_options =
     Inr [Tok ''string'' ''ab'' None]
   \<and> CHR 0x22 \<notin> set ''ab''"
  by code_simp

text \<open>
  C2, amended. For every well-formed string literal in the input (a quote \<open>d\<close>, a body
  in which every backslash takes the next character with it and no other character is
  \<open>d\<close>, and \<open>d\<close> again), met outside a string with a pending buffer that flushes, the
  driver goes on exactly as from the state in which one token of type \<open>string\<close> has been
  added to the current container, whose value is the raw, still-escaped body without the
  two delimiters; for an empty body no token is added. Only \<open>position\<close>, \<open>column\<close> and
  \<open>stringDelimiter\<close> change besides.
\<close>

theorem string_literal_value_is_raw_body:
  assumes "\<not> inString st" and "is_quote d" and "raw_body d body"
    and "drop (position st) inp = d # body @ d # rest"
    and "flushBuffer inp opts st = Inr st1"
  shows "loop inp opts st =
         loop inp opts
           ((if body = [] then st1 else addToken (Tok ''string'' body None) st1)
              \<lparr>position := position st + length body + 2,
               column := column st + string_columns body + 2,
               stringDelimiter := None\<rparr>)"
proof -
  note d = drop_Cons_facts [OF assms(4)]
  note fs = flushBuffer_fields [OF assms(5)] flushBuffer_position [OF assms(5)]
    flushBuffer_empty [OF assms(5)]
  let ?open = "st1\<lparr>inString := True, stringDelimiter := Some d,
                   position := position st + 1, column := column st + 1\<rparr>"
  have "dispatch inp opts d st = startString inp opts d st"
    using quote_dispatch [OF assms(1) d(1)] d(2) assms(2) by simp
  then have "step inp opts st = Inr ?open"
    using d(2) assms(5) fs is_quote_plain [OF assms(2)]
    by (simp add: step_def startString_def)
  with d(1) have 1: "loop inp opts st = loop inp opts ?open" by (rule loop_step)
  let ?body = "?open\<lparr>tokenBuffer := tokenBuffer ?open @ body,
                      position := position ?open + length body,
                      column := column ?open + string_columns body\<rparr>"
  have "drop (position ?open) inp = body @ d # rest" using d(3) by simp
  from string_body [OF assms(3) _ _ this]
  have 2: "loop inp opts ?open = loop inp opts ?body" by simp
  have "drop (length body + Suc (position st)) inp = drop (length body) (drop (Suc (position st)) inp)"
    by (simp only: drop_drop)
  then have "drop (length body + Suc (position st)) inp = d # rest"
    by (simp only: d(3) append_eq_conv_conj drop_append) simp
  then have "drop (position ?body) inp = d # rest"
    by (simp add: add.commute)
  from string_close_step [OF _ _ this assms(2)]
  have 3: "loop inp opts ?body =
           loop inp opts ((finishToken ''string'' ?body)
                          \<lparr>inString := False, stringDelimiter := None,
                           position := position ?body + 1, column := column ?body + 1\<rparr>)"
    by simp
  have "(finishToken ''string'' ?body)
                          \<lparr>inString := False, stringDelimiter := None,
                           position := position ?body + 1, column := column ?body + 1\<rparr> =
        (if body = [] then st1 else addToken (Tok ''string'' body None) st1)
              \<lparr>position := position st + length body + 2,
               column := column st + string_columns body + 2,
               stringDelimiter := None\<rparr>"
  proof (cases "body = []")
    case True
    with fs assms(1) show ?thesis by (simp add: finishToken_def)
  next
    case False
    with fs assms(1) show ?thesis
      by (cases "tokenStack st1") (simp_all add: finishToken_def addToken_def)
  qed
  with 1 2 3 show ?thesis by simp
qed

text \<open>
  The literal \<open>"a\"b"\<close>, whose body holds an escaped quote: the token's value is the
  four characters between the outer quotes.
\<close>

theorem string_literal_value_is_raw_body_witness:
  "\<not> inString init \<and> is_quote (CHR 0x22)
   \<and> raw_body (CHR 0x22) [CHR ''a'', CHR 0x5C, CHR 0x22, CHR ''b'']
   \<and> drop (position init) [CHR 0x22, CHR ''a'', CHR 0x5C, CHR 0x22, CHR ''b'', CHR 0x22] =
       CHR 0x22 # [CHR ''a'', CHR 0x5C, CHR 0x22, CHR ''b''] @ CHR 0x22 # []
   \<and> flushBuffer [CHR 0x22, CHR ''a'', CHR 0x5C, CHR 0x22, CHR ''b'', CHR 0x22]
         default_options init = Inr init
   \<and> loop [CHR 0x22, CHR ''a'', CHR 0x5C, CHR 0x22, CHR ''b'', CHR 0x22] default_options init =
       Inr \<lparr>tokens = [Tok ''string'' [CHR ''a'', CHR 0x5C, CHR 0x22, CHR ''b''] None],
            tokenBuffer = [], tokenStack = [], position = 6, line = 1, column = 6,
            inString = False, stringDelimiter = None\<rparr>"
proof -
  let ?inp = "[CHR 0x22, CHR ''a'', CHR 0x5C, CHR 0x22, CHR ''b'', CHR 0x22]"
  let ?body = "[CHR ''a'', CHR 0x5C, CHR 0x22, CHR ''b'']"
  have a: "\<not> inString init" by (simp add: init_def)
  have b: "is_quote (CHR 0x22)" by (simp add: is_quote_def double_quote_def)
  have c: "raw_body (CHR 0x22) ?body" by (simp add: backslash_def)
  have d: "drop (position init) ?inp = CHR 0x22 # ?body @ CHR 0x22 # []"
    by (simp add: init_def)
  have e: "flushBuffer ?inp default_options init = Inr init"
    by (simp add: flushBuffer_def init_def)
  have f: "(if ?body = [] then init else addToken (Tok ''string'' ?body None) init)
              \<lparr>position := position init + length ?body + 2,
               column := column init + string_columns ?body + 2,
               stringDelimiter := None\<rparr> =
           \<lparr>tokens = [Tok ''string'' ?body None],
            tokenBuffer = [], tokenStack = [], position = 6, line = 1, column = 6,
            inString = False, stringDelimiter = None\<rparr>"
    by code_simp
  have "loop ?inp default_options init =
        loop ?inp default_options
          \<lparr>tokens = [Tok ''string'' ?body None],
            tokenBuffer = [], tokenStack = [], position = 6, line = 1, column = 6,
            inString = False, stringDelimiter = None\<rparr>"
    using string_literal_value_is_raw_body [OF a b c d e] unfolding f .
  then have "loop ?inp default_options init =
        Inr \<lparr>tokens = [Tok ''string'' ?body None],
            tokenBuffer = [], tokenStack = [], position = 6, line = 1, column = 6,
            inString = False, stringDelimiter = None\<rparr>"
    by (simp add: loop_end)
  with a b c d e show ?thesis by simp
qed

subsection \<open>\<open>filter\<close>\<close>

text \<open>
  C3. \<open>filter(type)\<close> should be a read-only query that leaves the token tree of
  \<open>tokenize()\<close> unchanged. The callback assigns \<open>token.children\<close> of every block it
  visits. After \<open>tokenize()\<close> on \<open>(a 1)\<close> the call \<open>filter('number')\<close> returns the block
  with the number alone, and the block of \<open>#tokens\<close> has lost the identifier \<open>a\<close>: a
  following \<open>filter('identifier')\<close> returns nothing, where on the tree as scanned it
  returns the block with \<open>a\<close>.
\<close>

theorem filter_changes_the_token_tree:
  "tokenize ''(a 1)'' default_options init =
     Inr ([Block CHR ''('' CHR '')'' [Tok ''identifier'' ''a'' None, Tok ''number'' ''1'' None]],
          \<lparr>tokens = [Block CHR ''('' CHR '')''
                       [Tok ''identifier'' ''a'' None, Tok ''number'' ''1'' None]],
           tokenBuffer = [], tokenStack = [], position = 5, line = 1, column = 6,
           inString = False, stringDelimiter = None\<rparr>)
   \<and> filter_tokens ''number''
        \<lparr>tokens = [Block CHR ''('' CHR '')''
                     [Tok ''identifier'' ''a'' None, Tok ''number'' ''1'' None]],
         tokenBuffer = [], tokenStack = [], position = 5, line = 1, column = 6,
         inString = False, stringDelimiter = None\<rparr> =
     Some ([Block CHR ''('' CHR '')'' [Tok ''number'' ''1'' None]],
           \<lparr>tokens = [Block CHR ''('' CHR '')'' [Tok ''number'' ''1'' None]],
            tokenBuffer = [], tokenStack = [], position = 5, line = 1, column = 6,
            inString = False, stringDelimiter = None\<rparr>)
   \<and> filter_tokens ''identifier''
        \<lparr>tokens = [Block CHR ''('' CHR '')'' [Tok ''number'' ''1'' None]],
         tokenBuffer = [], tokenStack = [], position = 5, line = 1, column = 6,
         inString = False, stringDelimiter = None\<rparr> =
     Some ([],
           \<lparr>tokens = [Block CHR ''('' CHR '')'' []],
            tokenBuffer = [], tokenStack = [], position = 5, line = 1, column = 6,
            inString = False, stringDelimiter = None\<rparr>)
   \<and> filter_tokens ''identifier''
        \<lparr>tokens = [Block CHR ''('' CHR '')''
                     [Tok ''identifier'' ''a'' None, Tok ''number'' ''1'' None]],
         tokenBuffer = [], tokenStack = [], position = 5, line = 1, column = 6,
         inString = False, stringDelimiter = None\<rparr> =
     Some ([Block CHR ''('' CHR '')'' [Tok ''identifier'' ''a'' None]],
           \<lparr>tokens = [Block CHR ''('' CHR '')'' [Tok ''identifier'' ''a'' None]],
            tokenBuffer = [], tokenStack = [], position = 5, line = 1, column = 6,
            inString = False, stringDelimiter = None\<rparr>)"
  by code_simp

subsection \<open>Regular expressions after \<open>return\<close>\<close>

text \<open>
  C4. With regex recognition enabled, a \<open>/\<close> after a last meaningful token \<open>return\<close>
  should start a regex literal: \<open>#checkRegex\<close> lists \<open>return\<close> and \<open>throw\<close> among the
  values and \<open>keyword\<close> among the types. No token of type \<open>keyword\<close> is ever made:
  \<open>return\<close> is flushed as an \<open>identifier\<close>, the type test fails, and on the input
  \<open>return /a/;\<close> both slashes are emitted as symbols and no regex token is. After
  the symbol \<open>=\<close> the same literal is recognised.
\<close>

theorem no_regex_after_return:
  "allowRegex default_options
   \<and> scan ''return /a/;'' default_options =
       Inr [Tok ''identifier'' ''return'' None, Tok ''symbol'' ''/'' None,
            Tok ''identifier'' ''a'' None, Tok ''symbol'' ''/'' None, Tok ''symbol'' '';'' None]
   \<and> scan ''x = /a/;'' default_options =
       Inr [Tok ''identifier'' ''x'' None, Tok ''symbol'' ''='' None,
            Tok ''regex'' ''/a/'' None, Tok ''symbol'' '';'' None]"
  by code_simp

subsection \<open>The column after a discarded comment\<close>

text \<open>
  C5. With \<open>preserveComments\<close> disabled the input \<open>/* a */x\<close> yields the one token
  \<open>identifier x\<close>, as claimed, and the column at \<open>x\<close> should be 8. \<open>#handleComment\<close> moves
  \<open>position\<close> to the closing slash and leaves \<open>column\<close> alone when the comment has no
  newline, and the driver then adds one: after the first iteration the scanner is at
  offset 7, the \<open>x\<close>, in column 2. An unexpected character in the place of \<open>x\<close> is
  reported in column 2.
\<close>

theorem column_after_comment_is_two:
  "scan ''/* a */x'' (default_options\<lparr>preserveComments := False\<rparr>) =
     Inr [Tok ''identifier'' ''x'' None]
   \<and> run 1 ''/* a */x'' (default_options\<lparr>preserveComments := False\<rparr>) init =
       Inr \<lparr>tokens = [], tokenBuffer = [], tokenStack = [], position = 7, line = 1, column = 2,
            inString = False, stringDelimiter = None\<rparr>
   \<and> ''/* a */x'' ! 7 = CHR ''x''
   \<and> scan ''/* a */@'' (default_options\<lparr>preserveComments := False\<rparr>) =
       Inl \<lparr>message = UnexpectedCharacter CHR ''@'', line_column = Some (1, 2),
            offset = 7, context_window = ''/* a */@'', pointer = ''       ^''\<rparr>"
  by code_simp

subsection \<open>The end of the input inside a string\<close>

text \<open>
  The claim C6 as stated, that every input ending inside a string literal fails with the
  unclosed-string error, fails on the input \<open>("a\<close>: the loop ends inside the string, and
  the check for unclosed blocks comes first.
\<close>

theorem unclosed_string_counterexample:
  "loop [CHR ''('', CHR 0x22, CHR ''a''] default_options init =
     Inr \<lparr>tokens = [], tokenBuffer = ''a'',
          tokenStack = [\<lparr>opener = CHR ''('', closer = CHR '')'', children = []\<rparr>],
          position = 3, line = 1, column = 4, inString = True,
          stringDelimiter = Some (CHR 0x22)\<rparr>
   \<and> scan [CHR ''('', CHR 0x22, CHR ''a''] default_options =
       Inl \<lparr>message = UnclosedBlock CHR ''('', line_column = Some (1, 4), offset = 3,
            context_window = [CHR ''('', CHR 0x22, CHR ''a''], pointer = ''   ^''\<rparr>"
  by code_simp

text \<open>
  C6, amended. For every input whose loop ends while still inside a string literal,
  \<open>tokenize()\<close> fails. Unless the last flush of the buffer fails first (the buffer is a
  run of digits and dots with more than one dot), the error is the unclosed-block error
  when a block is still open, and otherwise the unclosed-string error naming the
  delimiter, at the final offset. The input \<open>"unterminated\<close> fails with the
  unclosed-string error at offset 13, the end of the input.
\<close>

theorem unclosed_string_fails:
  assumes "loop inp opts init = Inr st" and "inString st"
  shows "((\<exists>e. scan inp opts = Inl e) \<and>
          (\<not> (numeric (tokenBuffer st) \<and> 1 < dotCount (tokenBuffer st)) \<longrightarrow>
             scan inp opts =
               Inl (error inp opts st
                      (case tokenStack st of
                         [] \<Rightarrow> UnclosedString (stringDelimiter st)
                       | unclosed # rest \<Rightarrow> UnclosedBlock (opener unclosed)))))
         \<and> scan (CHR 0x22 # ''unterminated'') opts =
             Inl \<lparr>message = UnclosedString (Some (CHR 0x22)),
                  line_column = (if trackPosition opts then Some (1, 14) else None),
                  offset = 13, context_window = CHR 0x22 # ''unterminated'',
                  pointer = ''             ^''\<rparr>"
proof (rule conjI)
  show "(\<exists>e. scan inp opts = Inl e) \<and>
          (\<not> (numeric (tokenBuffer st) \<and> 1 < dotCount (tokenBuffer st)) \<longrightarrow>
             scan inp opts =
               Inl (error inp opts st
                      (case tokenStack st of
                         [] \<Rightarrow> UnclosedString (stringDelimiter st)
                       | unclosed # rest \<Rightarrow> UnclosedBlock (opener unclosed))))"
  proof (cases "numeric (tokenBuffer st) \<and> 1 < dotCount (tokenBuffer st)")
    case True
    then have "flushBuffer inp opts st = Inl (error inp opts st (InvalidNumber (tokenBuffer st)))"
      by (simp add: flushBuffer_cases)
    with assms(1) True show ?thesis by (simp add: scan_def tokenize_def)
  next
    case False
    then obtain st1 where f: "flushBuffer inp opts st = Inr st1"
      by (simp add: flushBuffer_cases)
    note fs = flushBuffer_fields [OF f]
    have e: "error inp opts st1 m = error inp opts st m" for m
      using flushBuffer_position [OF f] fs(1,2) by (rule error_cong)
    have "scan inp opts =
                Inl (error inp opts st
                       (case tokenStack st of
                          [] \<Rightarrow> UnclosedString (stringDelimiter st)
                        | unclosed # rest \<Rightarrow> UnclosedBlock (opener unclosed)))"
    proof (cases "tokenStack st")
      case Nil
      with fs(5) have "tokenStack st1 = []" by simp
      with Nil assms f fs(3,4) show ?thesis by (simp add: scan_def tokenize_def e)
    next
      case (Cons b bs)
      with fs(7) obtain b1 bs1 where "tokenStack st1 = b1 # bs1" "opener b1 = opener b"
        by (cases "tokenStack st1") auto
      with Cons assms f show ?thesis by (simp add: scan_def tokenize_def e)
    qed
    then show ?thesis by simp
  qed
next
  show "scan (CHR 0x22 # ''unterminated'') opts =
             Inl \<lparr>message = UnclosedString (Some (CHR 0x22)),
                  line_column = (if trackPosition opts then Some (1, 14) else None),
                  offset = 13, context_window = CHR 0x22 # ''unterminated'',
                  pointer = ''             ^''\<rparr>"
    by (simp add: eval_defs)
qed

theorem unclosed_string_fails_witness:
  "loop (CHR 0x22 # ''unterminated'') default_options init =
     Inr \<lparr>tokens = [], tokenBuffer = ''unterminated'', tokenStack = [],
          position = 13, line = 1, column = 14, inString = True,
          stringDelimiter = Some (CHR 0x22)\<rparr>
   \<and> \<not> (numeric ''unterminated'' \<and> 1 < dotCount ''unterminated'')
   \<and> scan (CHR 0x22 # ''unterminated'') default_options =
       Inl \<lparr>message = UnclosedString (Some (CHR 0x22)), line_column = Some (1, 14),
            offset = 13, context_window = CHR 0x22 # ''unterminated'',
            pointer = ''             ^''\<rparr>"
proof -
  let ?st = "\<lparr>tokens = [], tokenBuffer = ''unterminated'', tokenStack = [],
          position = 13, line = 1, column = 14, inString = True,
          stringDelimiter = Some (CHR 0x22)\<rparr>"
  have a: "loop (CHR 0x22 # ''unterminated'') default_options init = Inr ?st"
    by code_simp
  have b: "inString ?st" by simp
  have c: "\<not> (numeric ''unterminated'' \<and> 1 < dotCount ''unterminated'')"
    by (simp add: numeric_def is_digit_def)
  from unclosed_string_fails [OF a b] a c show ?thesis
    by (simp add: error_def default_options_def slice_def replicate_numeral)
qed

subsection \<open>Flushing a numeric buffer\<close>

text \<open>
  C7. Every flushed non-empty buffer made of digits and dots only is emitted as a token
  of type \<open>number\<close> into the current container when it has at most one dot, and makes
  the flush fail with the invalid-number error when it has more than one. The input
  \<open>1.2.3\<close> is one such run: \<open>tokenize()\<close> fails with that error, at offset 5.
\<close>

theorem numeric_buffer_flush:
  assumes "tokenBuffer st \<noteq> []" and "numeric (tokenBuffer st)"
  shows "(dotCount (tokenBuffer st) \<le> 1 \<longrightarrow>
            flushBuffer inp opts st =
              Inr ((addToken (Tok ''number'' (tokenBuffer st) None) st)\<lparr>tokenBuffer := []\<rparr>))
       \<and> (1 < dotCount (tokenBuffer st) \<longrightarrow>
            flushBuffer inp opts st = Inl (error inp opts st (InvalidNumber (tokenBuffer st))))
       \<and> scan ''1.2.3'' opts =
            Inl \<lparr>message = InvalidNumber ''1.2.3'',
                 line_column = (if trackPosition opts then Some (1, 6) else None),
                 offset = 5, context_window = ''1.2.3'', pointer = ''     ^''\<rparr>"
proof (intro conjI impI)
  assume "dotCount (tokenBuffer st) \<le> 1"
  with assms show "flushBuffer inp opts st =
              Inr ((addToken (Tok ''number'' (tokenBuffer st) None) st)\<lparr>tokenBuffer := []\<rparr>)"
    by (simp add: flushBuffer_def finishToken_def)
next
  assume "1 < dotCount (tokenBuffer st)"
  with assms show "flushBuffer inp opts st = Inl (error inp opts st (InvalidNumber (tokenBuffer st)))"
    by (simp add: flushBuffer_def)
next
  show "scan ''1.2.3'' opts =
            Inl \<lparr>message = InvalidNumber ''1.2.3'',
                 line_column = (if trackPosition opts then Some (1, 6) else None),
                 offset = 5, context_window = ''1.2.3'', pointer = ''     ^''\<rparr>"
    by (simp add: eval_defs)
qed

theorem numeric_buffer_flush_witness:
  "tokenBuffer (init\<lparr>tokenBuffer := ''1.5''\<rparr>) \<noteq> [] \<and> numeric ''1.5'' \<and> dotCount ''1.5'' \<le> 1
   \<and> flushBuffer ''1.5'' default_options (init\<lparr>tokenBuffer := ''1.5''\<rparr>) =
       Inr (init\<lparr>tokens := [Tok ''number'' ''1.5'' None]\<rparr>)
   \<and> numeric ''1.2.3'' \<and> 1 < dotCount ''1.2.3''
   \<and> flushBuffer ''1.2.3'' default_options (init\<lparr>tokenBuffer := ''1.2.3''\<rparr>) =
       Inl (error ''1.2.3'' default_options (init\<lparr>tokenBuffer := ''1.2.3''\<rparr>)
              (InvalidNumber ''1.2.3''))"
proof -
  have a: "tokenBuffer (init\<lparr>tokenBuffer := ''1.5''\<rparr>) \<noteq> []" by simp
  have b: "numeric (tokenBuffer (init\<lparr>tokenBuffer := ''1.5''\<rparr>))"
    by (simp add: numeric_def is_digit_def)
  have c: "dotCount ''1.5'' \<le> 1" by (simp add: dotCount_def)
  have a': "tokenBuffer (init\<lparr>tokenBuffer := ''1.2.3''\<rparr>) \<noteq> []" by simp
  have b': "numeric (tokenBuffer (init\<lparr>tokenBuffer := ''1.2.3''\<rparr>))"
    by (simp add: numeric_def is_digit_def)
  have c': "1 < dotCount ''1.2.3''" by (simp add: dotCount_def)
  from numeric_buffer_flush [OF a b, of "''1.5''" default_options]
    numeric_buffer_flush [OF a' b', of "''1.2.3''" default_options]
    b c b' c'
  show ?thesis by (simp add: addToken_def init_def)
qed

subsection \<open>A closing bracket that does not match\<close>

text \<open>
  The claim C8 as stated, that a closing bracket other than the closer of the innermost
  open block makes \<open>tokenize()\<close> fail with the mismatched-brackets error, fails on the
  input \<open>[1.2.3)\<close>: \<open>#finishBlock\<close> flushes the buffer before it looks at the stack,
  and the flush of \<open>1.2.3\<close> throws the invalid-number error.
\<close>

theorem mismatched_closer_counterexample:
  "run 6 ''[1.2.3)'' default_options init =
     Inr \<lparr>tokens = [], tokenBuffer = ''1.2.3'',
          tokenStack = [\<lparr>opener = CHR ''['', closer = CHR '']'', children = []\<rparr>],
          position = 6, line = 1, column = 7, inString = False, stringDelimiter = None\<rparr>
   \<and> ''[1.2.3)'' ! 6 = CHR '')''
   \<and> scan ''[1.2.3)'' default_options =
       Inl \<lparr>message = InvalidNumber ''1.2.3'', line_column = Some (1, 7), offset = 6,
            context_window = ''[1.2.3)'', pointer = ''      ^''\<rparr>"
  by code_simp

text \<open>
  C8, amended. When the driver, outside a string, meets a closing bracket that is not
  the closer of the innermost open block, \<open>tokenize()\<close> fails at the offset of that
  bracket: with the invalid-number error when the pending buffer is a run of digits and
  dots with more than one dot, and otherwise with the mismatched-brackets error naming
  the expected and the actual closer. The input \<open>[1,2,3)\<close> fails naming \<open>]\<close> expected
  and \<open>)\<close> actual, at offset 6, the offset of \<open>)\<close>.
\<close>

theorem mismatched_closer_fails:
  assumes "run n inp opts init = Inr st" and "position st < length inp"
    and "\<not> inString st" and "is_closer (inp ! position st)"
    and "tokenStack st = blk # rest" and "closer blk \<noteq> inp ! position st"
  shows "scan inp opts =
           Inl (error inp opts st
                  (if numeric (tokenBuffer st) \<and> 1 < dotCount (tokenBuffer st)
                   then InvalidNumber (tokenBuffer st)
                   else MismatchedBrackets (closer blk) (inp ! position st)))
         \<and> scan ''[1,2,3)'' opts =
             Inl \<lparr>message = MismatchedBrackets CHR '']'' CHR '')'',
                  line_column = (if trackPosition opts then Some (1, 7) else None),
                  offset = 6, context_window = ''[1,2,3)'', pointer = ''      ^''\<rparr>"
proof (rule conjI)
  let ?e = "error inp opts st
            (if numeric (tokenBuffer st) \<and> 1 < dotCount (tokenBuffer st)
             then InvalidNumber (tokenBuffer st)
             else MismatchedBrackets (closer blk) (inp ! position st))"
  have "dispatch inp opts (inp ! position st) st = Inl ?e"
    using closer_dispatch [OF assms(3,2,4)] finishBlock_mismatch [OF assms(5,6)] by simp
  then have "step inp opts st = Inl ?e" by (simp add: step_def)
  then have "loop inp opts st = Inl ?e" using assms(2) by (simp add: loop_step_Inl)
  then have "loop inp opts init = Inl ?e" using loop_run [OF assms(1)] by simp
  then show "scan inp opts = Inl ?e" by (rule scan_loop_Inl)
next
  show "scan ''[1,2,3)'' opts =
             Inl \<lparr>message = MismatchedBrackets CHR '']'' CHR '')'',
                  line_column = (if trackPosition opts then Some (1, 7) else None),
                  offset = 6, context_window = ''[1,2,3)'', pointer = ''      ^''\<rparr>"
    by (simp add: eval_defs)
qed

theorem mismatched_closer_fails_witness:
  "run 6 ''[1,2,3)'' default_options init =
     Inr \<lparr>tokens = [], tokenBuffer = ''3'',
          tokenStack =
            [\<lparr>opener = CHR ''['', closer = CHR '']'',
              children = [Tok ''number'' ''1'' None, Tok ''symbol'' '','' None,
                          Tok ''number'' ''2'' None, Tok ''symbol'' '','' None]\<rparr>],
          position = 6, line = 1, column = 7, inString = False, stringDelimiter = None\<rparr>
   \<and> (6::nat) < length ''[1,2,3)''
   \<and> is_closer (''[1,2,3)'' ! 6)
   \<and> CHR '']'' \<noteq> ''[1,2,3)'' ! 6
   \<and> scan ''[1,2,3)'' default_options =
       Inl \<lparr>message = MismatchedBrackets CHR '']'' CHR '')'', line_column = Some (1, 7),
            offset = 6, context_window = ''[1,2,3)'', pointer = ''      ^''\<rparr>"
proof -
  let ?blk = "\<lparr>opener = CHR ''['', closer = CHR '']'',
              children = [Tok ''number'' ''1'' None, Tok ''symbol'' '','' None,
                          Tok ''number'' ''2'' None, Tok ''symbol'' '','' None]\<rparr>"
  let ?st = "\<lparr>tokens = [], tokenBuffer = ''3'', tokenStack = [?blk],
          position = 6, line = 1, column = 7, inString = False, stringDelimiter = None\<rparr>"
  have a: "run 6 ''[1,2,3)'' default_options init = Inr ?st" by code_simp
  have b: "position ?st < length ''[1,2,3)''" by simp
  have c: "\<not> inString ?st" by simp
  have d: "is_closer (''[1,2,3)'' ! position ?st)" by (simp add: is_closer_def)
  have e: "tokenStack ?st = ?blk # []" by simp
  have f: "closer ?blk \<noteq> ''[1,2,3)'' ! position ?st" by simp
  have g: "\<not> (numeric (tokenBuffer ?st) \<and> 1 < dotCount (tokenBuffer ?st))"
    by (simp add: dotCount_def)
  from mismatched_closer_fails [OF a b c d e f] g a b d f show ?thesis
    by (simp add: default_options_def error_def slice_def replicate_numeral)
qed

subsection \<open>A second call of \<open>tokenize()\<close>\<close>

text \<open>
  C9. When a call of \<open>tokenize()\<close> succeeds with a non-empty token sequence, a second
  call on the same instance does not return an empty result: it finds \<open>position\<close> at the
  end of the input and an empty buffer, runs no iteration, and returns the same non-empty
  sequence \<open>#tokens\<close> again, leaving the fields as they are.
\<close>

theorem second_tokenize_returns_same_tokens:
  assumes "tokenize inp opts st0 = Inr (toks, st)" and "toks \<noteq> []"
  shows "\<exists>toks'. tokenize inp opts st = Inr (toks', st) \<and> toks' \<noteq> [] \<and> toks' = toks"
proof -
  from assms(1) obtain st1 where l: "loop inp opts st0 = Inr st1"
    and f: "flushBuffer inp opts st1 = Inr st"
    and s: "tokenStack st = []" and i: "\<not> inString st" and t: "toks = tokens st"
    by (rule tokenize_Inr)
  have "\<not> position st < length inp"
    using loop_Inr_position [OF l] flushBuffer_position [OF f] by simp
  then have "loop inp opts st = Inr st" by (rule loop_end)
  moreover have "flushBuffer inp opts st = Inr st"
    using flushBuffer_empty [OF f] by (rule flushBuffer_idle)
  ultimately have "tokenize inp opts st = Inr (toks, st)"
    using s i t by (simp add: tokenize_def)
  with assms(2) show ?thesis by simp
qed

theorem second_tokenize_returns_same_tokens_witness:
  "tokenize ''x'' default_options init =
     Inr ([Tok ''identifier'' ''x'' None],
          \<lparr>tokens = [Tok ''identifier'' ''x'' None], tokenBuffer = [], tokenStack = [],
           position = 1, line = 1, column = 2, inString = False, stringDelimiter = None\<rparr>)
   \<and> [Tok ''identifier'' ''x'' None] \<noteq> []
   \<and> tokenize ''x'' default_options
        \<lparr>tokens = [Tok ''identifier'' ''x'' None], tokenBuffer = [], tokenStack = [],
         position = 1, line = 1, column = 2, inString = False, stringDelimiter = None\<rparr> =
     Inr ([Tok ''identifier'' ''x'' None],
          \<lparr>tokens = [Tok ''identifier'' ''x'' None], tokenBuffer = [], tokenStack = [],
           position = 1, line = 1, column = 2, inString = False, stringDelimiter = None\<rparr>)"
proof -
  have h: "tokenize ''x'' default_options init =
     Inr ([Tok ''identifier'' ''x'' None],
          \<lparr>tokens = [Tok ''identifier'' ''x'' None], tokenBuffer = [], tokenStack = [],
           position = 1, line = 1, column = 2, inString = False, stringDelimiter = None\<rparr>)"
    by code_simp
  have n: "[Tok ''identifier'' ''x'' None] \<noteq> []" by simp
  from second_tokenize_returns_same_tokens [OF h n] h show ?thesis by simp
qed

subsection \<open>The empty string literal\<close>

text \<open>
  C10. An empty string literal emits no token: \<open>#finishToken\<close> adds a token only for a
  non-empty buffer, and the delimiters never enter the buffer. An input of two adjacent
  identical quote characters (two backticks, two single quotes or two double quotes) is
  tokenized with success, under any options, into the empty token sequence.
\<close>

theorem empty_string_literal_emits_nothing:
  "scan [backtick, backtick] opts = Inr []
   \<and> scan [single_quote, single_quote] opts = Inr []
   \<and> scan [double_quote, double_quote] opts = Inr []"
  by (simp add: eval_defs)

end
